theory Spec2Isabelle
  imports Complex_Main
begin

section \<open>Gesture-based mouse control: the frame loop of \<open>gesture_control_app.py\<close>\<close>

text \<open>
  The theory embeds the decision logic of \<open>GestureControlApp\<close>: \<open>extract_landmarks\<close>,
  \<open>process_single_hand\<close>, \<open>process_two_hands\<close>, \<open>process_frame\<close>, \<open>main_loop\<close>,
  \<open>start\<close> and \<open>cleanup\<close>.  The collaborators of the class are inputs or outputs of the
  model:
  \<^item> the MediaPipe detector is the list of hands a frame carries
    (\<open>results.multi_hand_landmarks\<close>; \<open>None\<close> is the empty list);
  \<^item> \<open>time.time()\<close> is the clock reading a frame carries;
  \<^item> every \<open>pyautogui\<close> call is a \<open>command\<close> appended to the list a function returns;
  \<^item> the OpenCV drawing calls have no effect on the session and are left out.
  Python floats are modelled as reals.
\<close>

subsection \<open>Landmarks and hands\<close>

record landmark =
  lm_x :: real
  lm_y :: real

text \<open>The members of \<open>mp.solutions.hands.HandLandmark\<close>, in MediaPipe's order.\<close>

datatype HandLandmark =
    WRIST
  | THUMB_CMC | THUMB_MCP | THUMB_IP | THUMB_TIP
  | INDEX_FINGER_MCP | INDEX_FINGER_PIP | INDEX_FINGER_DIP | INDEX_FINGER_TIP
  | MIDDLE_FINGER_MCP | MIDDLE_FINGER_PIP | MIDDLE_FINGER_DIP | MIDDLE_FINGER_TIP
  | RING_FINGER_MCP | RING_FINGER_PIP | RING_FINGER_DIP | RING_FINGER_TIP
  | PINKY_MCP | PINKY_PIP | PINKY_DIP | PINKY_TIP

text \<open>\<open>hand_landmarks.landmark[k]\<close> is \<open>h k\<close>.\<close>

type_synonym hand = "HandLandmark \<Rightarrow> landmark"

subsection \<open>Commands sent to the operating system\<close>

datatype button = LeftButton | RightButton

datatype command =
    MoveTo int int          \<comment> \<open>\<open>pyautogui.moveTo(x, y)\<close>\<close>
  | MoveToEased int int     \<comment> \<open>\<open>pyautogui.moveTo(x, y, duration=0.1, tween=easeOutQuad)\<close>\<close>
  | MouseDown               \<comment> \<open>\<open>pyautogui.mouseDown()\<close>\<close>
  | MouseUp                 \<comment> \<open>\<open>pyautogui.mouseUp()\<close>\<close>
  | Click button            \<comment> \<open>\<open>pyautogui.click()\<close>, \<open>pyautogui.click(button="right")\<close>\<close>
  | Scroll int              \<comment> \<open>\<open>pyautogui.scroll(n)\<close>\<close>
  | HScroll int             \<comment> \<open>\<open>pyautogui.hscroll(n)\<close>\<close>
  | KeyDown string          \<comment> \<open>\<open>pyautogui.keyDown(k)\<close>\<close>
  | Press string            \<comment> \<open>\<open>pyautogui.press(k)\<close>\<close>
  | KeyUp string            \<comment> \<open>\<open>pyautogui.keyUp(k)\<close>\<close>

subsection \<open>The application object\<close>

text \<open>The attributes \<open>__init__\<close> assigns (the MediaPipe handles apart).\<close>

record app =
  running :: bool
  paused :: bool
  last_click_time :: real
  screen_width :: int
  screen_height :: int
  status_message :: string
  mode_message :: string
  selection_active :: bool
  selection_start :: "(int \<times> int) option"

text \<open>\<open>self.SCROLL_SPEED\<close> and \<open>self.CLICK_COOLDOWN\<close> are assigned once and never again.\<close>

definition SCROLL_SPEED :: int where
  "SCROLL_SPEED = 50"

definition CLICK_COOLDOWN :: real where
  "CLICK_COOLDOWN = 0.5"

text \<open>
  \<open>__init__\<close>, with \<open>now\<close> the value of \<open>time.time()\<close> and \<open>(w, h)\<close> the value of
  \<open>pyautogui.size()\<close>.
\<close>

definition init :: "real \<Rightarrow> int \<Rightarrow> int \<Rightarrow> app" where
  "init now w h =
     \<lparr> running = False,
       paused = False,
       last_click_time = now,
       screen_width = w,
       screen_height = h,
       status_message = ''Gesture Control Ready'',
       mode_message = ''No hands detected'',
       selection_active = False,
       selection_start = None \<rparr>"

text \<open>
  The attributes \<open>extract_landmarks\<close> assigns to \<open>self\<close>.  Every read of one of them
  follows a call of \<open>extract_landmarks\<close> in the same loop iteration, so they are passed on
  as a value instead of being kept in \<open>app\<close>.
\<close>

record extracted =
  thumb_tip :: landmark
  thumb_ip :: landmark
  index_tip :: landmark
  index_pip :: landmark
  middle_tip :: landmark
  middle_pip :: landmark
  ring_tip :: landmark
  ring_pip :: landmark
  little_tip :: landmark
  little_pip :: landmark
  thumb_extended :: bool
  index_extended :: bool
  middle_extended :: bool
  ring_extended :: bool
  little_extended :: bool
  thumb_tip_x :: real
  thumb_tip_y :: real
  middle_tip_x :: real
  middle_tip_y :: real
  distance :: real

subsection \<open>Python's \<open>int\<close> on a float\<close>

text \<open>\<open>int(r)\<close> drops the fraction: it rounds towards zero.\<close>

definition py_int :: "real \<Rightarrow> int" where
  "py_int r = (if 0 \<le> r then \<lfloor>r\<rfloor> else \<lceil>r\<rceil>)"

subsection \<open>\<open>extract_landmarks\<close>\<close>

text \<open>The comparison of every \<open>*_extended\<close> attribute: \<open>tip.y < joint.y\<close>.\<close>

definition extended :: "real \<Rightarrow> real \<Rightarrow> bool" where
  "extended tip_y joint_y = (tip_y < joint_y)"

definition extract_landmarks :: "hand \<Rightarrow> extracted" where
  "extract_landmarks hand_landmarks =
     \<lparr> thumb_tip = hand_landmarks THUMB_TIP,
       thumb_ip = hand_landmarks THUMB_IP,
       index_tip = hand_landmarks INDEX_FINGER_TIP,
       index_pip = hand_landmarks INDEX_FINGER_PIP,
       middle_tip = hand_landmarks MIDDLE_FINGER_TIP,
       middle_pip = hand_landmarks MIDDLE_FINGER_PIP,
       ring_tip = hand_landmarks RING_FINGER_TIP,
       ring_pip = hand_landmarks RING_FINGER_PIP,
       little_tip = hand_landmarks PINKY_TIP,
       little_pip = hand_landmarks PINKY_PIP,
       thumb_extended = extended (lm_y (hand_landmarks THUMB_TIP)) (lm_y (hand_landmarks THUMB_IP)),
       index_extended =
         extended (lm_y (hand_landmarks INDEX_FINGER_TIP)) (lm_y (hand_landmarks INDEX_FINGER_PIP)),
       middle_extended =
         extended (lm_y (hand_landmarks MIDDLE_FINGER_TIP)) (lm_y (hand_landmarks MIDDLE_FINGER_PIP)),
       ring_extended =
         extended (lm_y (hand_landmarks RING_FINGER_TIP)) (lm_y (hand_landmarks RING_FINGER_PIP)),
       little_extended = extended (lm_y (hand_landmarks PINKY_TIP)) (lm_y (hand_landmarks PINKY_PIP)),
       thumb_tip_x = lm_x (hand_landmarks THUMB_TIP),
       thumb_tip_y = lm_y (hand_landmarks THUMB_TIP),
       middle_tip_x = lm_x (hand_landmarks MIDDLE_FINGER_TIP),
       middle_tip_y = lm_y (hand_landmarks MIDDLE_FINGER_TIP),
       distance =
         sqrt ((lm_x (hand_landmarks THUMB_TIP) - lm_x (hand_landmarks MIDDLE_FINGER_TIP))\<^sup>2
             + (lm_y (hand_landmarks THUMB_TIP) - lm_y (hand_landmarks MIDDLE_FINGER_TIP))\<^sup>2) \<rparr>"

subsection \<open>\<open>process_single_hand\<close>\<close>

text \<open>
  \<open>e\<close> holds the attributes of the last \<open>extract_landmarks\<close>, \<open>current_time\<close> is what
  \<open>time.time()\<close> returns in a click branch.  The result is the session after the call and
  the commands issued, in order.
\<close>

definition process_single_hand :: "extracted \<Rightarrow> real \<Rightarrow> app \<Rightarrow> app \<times> command list" where
  "process_single_hand e current_time s =
     (if index_extended e \<and> \<not> (middle_extended e \<or> ring_extended e \<or> little_extended e) then
        (s\<lparr>status_message := ''Mouse Control''\<rparr>,
         [MoveToEased (py_int (lm_x (index_tip e) * real_of_int (screen_width s)))
                      (py_int (lm_y (index_tip e) * real_of_int (screen_height s) + 30))])
      else if index_extended e \<and> middle_extended e \<and> \<not> (ring_extended e \<or> little_extended e) then
        (if (lm_y (index_tip e) + lm_y (middle_tip e)) / 2 > 0.5
         then (s\<lparr>status_message := ''Scrolling Down''\<rparr>, [Scroll (- SCROLL_SPEED)])
         else (s\<lparr>status_message := ''Scrolling Up''\<rparr>, [Scroll SCROLL_SPEED]))
      else if index_extended e \<and> little_extended e \<and> \<not> (middle_extended e \<or> ring_extended e) then
        (if (lm_x (index_tip e) + lm_x (little_tip e)) / 2 > 0.5
         then (s\<lparr>status_message := ''Scrolling Right''\<rparr>, [HScroll SCROLL_SPEED])
         else (s\<lparr>status_message := ''Scrolling Left''\<rparr>, [HScroll (- SCROLL_SPEED)]))
      else if thumb_extended e \<and> index_extended e \<and> middle_extended e
              \<and> ring_extended e \<and> little_extended e then
        (if current_time - last_click_time s \<ge> CLICK_COOLDOWN
         then (s\<lparr>last_click_time := current_time, status_message := ''Left Click''\<rparr>,
               [Click LeftButton])
         else (s, []))
      else if distance e < 0.05 then
        (if current_time - last_click_time s \<ge> CLICK_COOLDOWN
         then (s\<lparr>last_click_time := current_time, status_message := ''Right Click''\<rparr>,
               [Click RightButton])
         else (s, []))
      else (s, []))"

subsection \<open>\<open>process_two_hands\<close>\<close>

text \<open>The three pose tests at the head of \<open>process_two_hands\<close>.\<close>

definition hand1_all_extended :: "hand \<Rightarrow> bool" where
  "hand1_all_extended hand1 =
     (lm_y (hand1 THUMB_TIP) < lm_y (hand1 THUMB_IP)
      \<and> lm_y (hand1 INDEX_FINGER_TIP) < lm_y (hand1 INDEX_FINGER_PIP)
      \<and> lm_y (hand1 MIDDLE_FINGER_TIP) < lm_y (hand1 MIDDLE_FINGER_PIP)
      \<and> lm_y (hand1 RING_FINGER_TIP) < lm_y (hand1 RING_FINGER_PIP)
      \<and> lm_y (hand1 PINKY_TIP) < lm_y (hand1 PINKY_PIP))"

definition hand2_index_only :: "hand \<Rightarrow> bool" where
  "hand2_index_only hand2 =
     (lm_y (hand2 INDEX_FINGER_TIP) < lm_y (hand2 INDEX_FINGER_PIP)
      \<and> lm_y (hand2 MIDDLE_FINGER_TIP) > lm_y (hand2 MIDDLE_FINGER_PIP)
      \<and> lm_y (hand2 RING_FINGER_TIP) > lm_y (hand2 RING_FINGER_PIP)
      \<and> lm_y (hand2 PINKY_TIP) > lm_y (hand2 PINKY_PIP))"

definition hand2_index_middle :: "hand \<Rightarrow> bool" where
  "hand2_index_middle hand2 =
     (lm_y (hand2 INDEX_FINGER_TIP) < lm_y (hand2 INDEX_FINGER_PIP)
      \<and> lm_y (hand2 MIDDLE_FINGER_TIP) < lm_y (hand2 MIDDLE_FINGER_PIP)
      \<and> lm_y (hand2 RING_FINGER_TIP) > lm_y (hand2 RING_FINGER_PIP)
      \<and> lm_y (hand2 PINKY_TIP) > lm_y (hand2 PINKY_PIP))"

text \<open>
  \<open>hand1\<close> is \<open>multi_hand_landmarks[0]\<close> and \<open>hand2\<close> is \<open>multi_hand_landmarks[1]\<close>; the
  only call passes a list of length two.
\<close>

definition process_two_hands :: "hand \<Rightarrow> hand \<Rightarrow> app \<Rightarrow> app \<times> command list" where
  "process_two_hands hand1 hand2 s =
     (if hand1_all_extended hand1 \<and> hand2_index_only hand2 then
        (let start_cmds =
               (if \<not> selection_active s
                then [MoveTo (py_int (lm_x (hand1 INDEX_FINGER_TIP) * real_of_int (screen_width s)))
                             (py_int (lm_y (hand1 INDEX_FINGER_TIP) * real_of_int (screen_height s))),
                      MouseDown]
                else [])
         in (s\<lparr>selection_active := True, status_message := ''Text Selection Active''\<rparr>,
             start_cmds @
             [MoveTo (py_int (lm_x (hand2 INDEX_FINGER_TIP) * real_of_int (screen_width s)))
                     (py_int (lm_y (hand2 INDEX_FINGER_TIP) * real_of_int (screen_height s)))]))
      else if selection_active s then
        (s\<lparr>selection_active := False, status_message := ''Text Selection Completed''\<rparr>, [MouseUp])
      else if hand1_all_extended hand1 \<and> hand2_index_middle hand2 then
        (if (lm_y (hand2 INDEX_FINGER_TIP) + lm_y (hand2 MIDDLE_FINGER_TIP)) / 2 < 0.5
         then (s\<lparr>status_message := ''Zoom In''\<rparr>, [KeyDown ''ctrl'', Press ''+'', KeyUp ''ctrl''])
         else (s\<lparr>status_message := ''Zoom Out''\<rparr>, [KeyDown ''ctrl'', Press ''-'', KeyUp ''ctrl'']))
      else (s, []))"

subsection \<open>\<open>process_frame\<close>\<close>

text \<open>
  What one camera frame contributes: the hands the detector reports and the reading of the
  clock while the frame is processed.
\<close>

record frame =
  multi_hand_landmarks :: "hand list"
  clock :: real

text \<open>
  The body of \<open>for hand_landmarks in results.multi_hand_landmarks\<close>, run on the hands that
  are left; \<open>all_hands\<close> is the whole list, whose length selects the resolver in every
  iteration.
\<close>

fun hand_loop :: "hand list \<Rightarrow> real \<Rightarrow> hand list \<Rightarrow> app \<Rightarrow> app \<times> command list" where
  "hand_loop all_hands now [] s = (s, [])"
| "hand_loop all_hands now (hand_landmarks # rest) s =
     (let e = extract_landmarks hand_landmarks;
          (s1, cmds1) =
            (if length all_hands = 1 then
               process_single_hand e now (s\<lparr>mode_message := ''One hand''\<rparr>)
             else if length all_hands = 2 then
               process_two_hands (all_hands ! 0) (all_hands ! 1) (s\<lparr>mode_message := ''Two hands''\<rparr>)
             else (s, []));
          (s2, cmds2) = hand_loop all_hands now rest s1
      in (s2, cmds1 @ cmds2))"

definition process_frame :: "frame \<Rightarrow> app \<Rightarrow> app \<times> command list" where
  "process_frame f s =
     hand_loop (multi_hand_landmarks f) (clock f) (multi_hand_landmarks f)
       (s\<lparr>mode_message := ''No hands detected''\<rparr>)"

subsection \<open>\<open>cleanup\<close>, \<open>toggle_pause\<close>, \<open>main_loop\<close> and \<open>start\<close>\<close>

definition cleanup :: "app \<Rightarrow> app \<times> command list" where
  "cleanup s =
     (if selection_active s then (s\<lparr>selection_active := False\<rparr>, [MouseUp]) else (s, []))"

definition toggle_pause :: "app \<Rightarrow> app" where
  "toggle_pause s =
     (let s1 = s\<lparr>paused := \<not> paused s\<rparr>
      in if paused s1 then s1\<lparr>status_message := ''PAUSED - Press P to resume''\<rparr>
         else s1\<lparr>status_message := ''Gesture Control Active''\<rparr>)"

text \<open>
  One turn of the \<open>while\<close> loop reads a key (\<open>cv2.waitKey(1) & 0xFF\<close>) and, unless the
  session is paused, a frame (\<open>None\<close> when \<open>self.cam.read()\<close> fails).  The loop runs on the
  turns it is given; the list ends where \<open>self.cam.isOpened()\<close> turns false.  The tray
  thread, which sets \<open>running\<close> and \<open>paused\<close> from outside the loop, is not modelled: a
  pause from the tray acts on the loop as the key \<open>p\<close> does, an exit as the end of the list.
\<close>

record tick =
  key :: nat
  capture :: "frame option"

fun main_loop :: "tick list \<Rightarrow> app \<Rightarrow> app \<times> command list" where
  "main_loop [] s = (s, [])"
| "main_loop (t # ts) s =
     (if \<not> running s then (s, [])
      else if key t = 113 then (s, [])
      else
        (let s1 = (if key t = 112 then toggle_pause s else s)
         in if paused s1 then main_loop ts s1
            else (case capture t of
                    None \<Rightarrow> main_loop ts s1
                  | Some img \<Rightarrow>
                      (let (s2, cmds2) = process_frame img s1;
                           (s3, cmds3) = main_loop ts s2
                       in (s3, cmds2 @ cmds3)))))"

definition start :: "tick list \<Rightarrow> app \<Rightarrow> app \<times> command list" where
  "start ts s =
     (let (s1, cmds1) = main_loop ts (s\<lparr>running := True\<rparr>);
          (s2, cmds2) = cleanup s1
      in (s2, cmds1 @ cmds2))"

subsection \<open>Runs of frames\<close>

text \<open>
  \<open>run_frames fs s\<close> processes the frames \<open>fs\<close> in order from the session \<open>s\<close> and lists,
  for every frame, the session after it and the commands it issued; \<open>after_frames fs s\<close>
  is the session after the last of them.
\<close>

fun run_frames :: "frame list \<Rightarrow> app \<Rightarrow> (app \<times> command list) list" where
  "run_frames [] s = []"
| "run_frames (f # fs) s = process_frame f s # run_frames fs (fst (process_frame f s))"

fun after_frames :: "frame list \<Rightarrow> app \<Rightarrow> app" where
  "after_frames [] s = s"
| "after_frames (f # fs) s = after_frames fs (fst (process_frame f s))"

subsection \<open>Presses and releases in a list of commands\<close>

text \<open>
  \<open>no_double_release released cmds\<close>: no \<open>MouseUp\<close> of \<open>cmds\<close> follows another \<open>MouseUp\<close>
  with no \<open>MouseDown\<close> between them; \<open>released\<close> tells whether a release with no press
  after it precedes \<open>cmds\<close>.  \<open>released_after\<close> is that flag at the end of \<open>cmds\<close>.
\<close>

fun no_double_release :: "bool \<Rightarrow> command list \<Rightarrow> bool" where
  "no_double_release released [] = True"
| "no_double_release released (c # cs) =
     (if c = MouseUp then \<not> released \<and> no_double_release True cs
      else if c = MouseDown then no_double_release False cs
      else no_double_release released cs)"

fun released_after :: "bool \<Rightarrow> command list \<Rightarrow> bool" where
  "released_after released [] = released"
| "released_after released (c # cs) =
     (if c = MouseUp then released_after True cs
      else if c = MouseDown then released_after False cs
      else released_after released cs)"

subsection \<open>The ranked rule table of the specification\<close>

text \<open>
  The specification describes the single-hand resolver as a table of rules tried from
  the top, the first match winning.  \<open>spec_rules\<close> is that table and \<open>spec_resolve\<close>
  its evaluation; \<open>branch_body\<close> is what the body of the matching branch of
  \<open>process_single_hand\<close> does.
\<close>

datatype gesture = MoveCursor | VerticalScroll | HorizontalScroll | LeftClick | RightClick | NoGesture

definition spec_rules :: "(gesture \<times> (extracted \<Rightarrow> bool)) list" where
  "spec_rules =
     [(MoveCursor,
         \<lambda>e. index_extended e \<and> \<not> middle_extended e \<and> \<not> ring_extended e \<and> \<not> little_extended e),
      (VerticalScroll,
         \<lambda>e. index_extended e \<and> middle_extended e \<and> \<not> ring_extended e \<and> \<not> little_extended e),
      (HorizontalScroll,
         \<lambda>e. index_extended e \<and> little_extended e \<and> \<not> middle_extended e \<and> \<not> ring_extended e),
      (LeftClick,
         \<lambda>e. thumb_extended e \<and> index_extended e \<and> middle_extended e
              \<and> ring_extended e \<and> little_extended e),
      (RightClick, \<lambda>e. distance e < 0.05)]"

fun first_match :: "(gesture \<times> (extracted \<Rightarrow> bool)) list \<Rightarrow> extracted \<Rightarrow> gesture" where
  "first_match [] e = NoGesture"
| "first_match ((g, p) # rules) e = (if p e then g else first_match rules e)"

definition spec_resolve :: "extracted \<Rightarrow> gesture" where
  "spec_resolve e = first_match spec_rules e"

fun branch_body :: "gesture \<Rightarrow> extracted \<Rightarrow> real \<Rightarrow> app \<Rightarrow> app \<times> command list" where
  "branch_body MoveCursor e current_time s =
     (s\<lparr>status_message := ''Mouse Control''\<rparr>,
      [MoveToEased (py_int (lm_x (index_tip e) * real_of_int (screen_width s)))
                   (py_int (lm_y (index_tip e) * real_of_int (screen_height s) + 30))])"
| "branch_body VerticalScroll e current_time s =
     (if (lm_y (index_tip e) + lm_y (middle_tip e)) / 2 > 0.5
      then (s\<lparr>status_message := ''Scrolling Down''\<rparr>, [Scroll (- SCROLL_SPEED)])
      else (s\<lparr>status_message := ''Scrolling Up''\<rparr>, [Scroll SCROLL_SPEED]))"
| "branch_body HorizontalScroll e current_time s =
     (if (lm_x (index_tip e) + lm_x (little_tip e)) / 2 > 0.5
      then (s\<lparr>status_message := ''Scrolling Right''\<rparr>, [HScroll SCROLL_SPEED])
      else (s\<lparr>status_message := ''Scrolling Left''\<rparr>, [HScroll (- SCROLL_SPEED)]))"
| "branch_body LeftClick e current_time s =
     (if current_time - last_click_time s \<ge> CLICK_COOLDOWN
      then (s\<lparr>last_click_time := current_time, status_message := ''Left Click''\<rparr>,
            [Click LeftButton])
      else (s, []))"
| "branch_body RightClick e current_time s =
     (if current_time - last_click_time s \<ge> CLICK_COOLDOWN
      then (s\<lparr>last_click_time := current_time, status_message := ''Right Click''\<rparr>,
            [Click RightButton])
      else (s, []))"
| "branch_body NoGesture e current_time s = (s, [])"

subsection \<open>Example hands\<close>

text \<open>
  \<open>pose th ix mi ri pk\<close> is a hand whose five finger tips are the given landmarks and
  whose other landmarks, the joints among them, all lie at \<open>(0.5, 0.8)\<close>: a tip above
  \<open>y = 0.8\<close> is an extended finger.
\<close>

definition lm :: "real \<Rightarrow> real \<Rightarrow> landmark" where
  "lm a b = \<lparr> lm_x = a, lm_y = b \<rparr>"

definition pose :: "landmark \<Rightarrow> landmark \<Rightarrow> landmark \<Rightarrow> landmark \<Rightarrow> landmark \<Rightarrow> hand" where
  "pose th ix mi ri pk =
     (\<lambda>k. lm (1/2) (4/5))
       (THUMB_TIP := th, INDEX_FINGER_TIP := ix, MIDDLE_FINGER_TIP := mi,
        RING_FINGER_TIP := ri, PINKY_TIP := pk)"

text \<open>An open palm, a hand pointing with the index finger, and a peace sign.\<close>

definition open_palm :: hand where
  "open_palm = pose (lm (3/10) (2/5)) (lm (2/5) (3/10)) (lm (1/2) (3/10)) (lm (3/5) (3/10)) (lm (7/10) (2/5))"

definition pointing :: hand where
  "pointing = pose (lm (3/10) (9/10)) (lm (1/2) (1/2)) (lm (1/2) (9/10)) (lm (3/5) (9/10)) (lm (7/10) (9/10))"

definition peace_sign :: hand where
  "peace_sign = pose (lm (3/10) (9/10)) (lm (2/5) (3/10)) (lm (1/2) (3/10)) (lm (3/5) (9/10)) (lm (7/10) (9/10))"

text \<open>
  A peace sign in the lower half of the frame, and one with both tips on the line
  \<open>y = 0.5\<close>.
\<close>

definition low_peace_sign :: hand where
  "low_peace_sign =
     pose (lm (3/10) (9/10)) (lm (2/5) (7/10)) (lm (1/2) (7/10)) (lm (3/5) (9/10)) (lm (7/10) (9/10))"

definition midline_peace_sign :: hand where
  "midline_peace_sign =
     pose (lm (3/10) (9/10)) (lm (2/5) (1/2)) (lm (1/2) (1/2)) (lm (3/5) (9/10)) (lm (7/10) (9/10))"

text \<open>A pointing hand whose middle finger tip is level with its joint.\<close>

definition level_middle_pointing :: hand where
  "level_middle_pointing =
     pose (lm (3/10) (9/10)) (lm (1/2) (1/2)) (lm (1/2) (4/5)) (lm (3/5) (9/10)) (lm (7/10) (9/10))"

text \<open>An open palm whose thumb tip touches the middle finger tip.\<close>

definition pinched_open_palm :: hand where
  "pinched_open_palm =
     pose (lm (1/2) (3/10)) (lm (2/5) (3/10)) (lm (1/2) (3/10)) (lm (3/5) (3/10)) (lm (7/10) (2/5))"

text \<open>A frame with these hands, read at clock \<open>t\<close>.\<close>

definition frame_at :: "real \<Rightarrow> hand list \<Rightarrow> frame" where
  "frame_at t hs = \<lparr> multi_hand_landmarks = hs, clock = t \<rparr>"

text \<open>A fist whose thumb tip touches the middle finger tip: the right-click pose.\<close>

definition pinch_fist :: hand where
  "pinch_fist =
     pose (lm (1/2) (9/10)) (lm (2/5) (9/10)) (lm (1/2) (9/10)) (lm (3/5) (9/10)) (lm (7/10) (9/10))"

text \<open>
  Three frames on a session created at clock 0: an open palm after 0.2 s, an open palm
  after 1 s, and a pinch 0.2 s later.
\<close>

definition cooldown_example :: "frame list" where
  "cooldown_example = [frame_at (1/5) [open_palm], frame_at 1 [open_palm], frame_at (6/5) [pinch_fist]]"

subsection \<open>Frames showing one fully open hand\<close>

text \<open>The detector reports one hand and all five of its fingers are extended.\<close>

definition open_hand_frame :: "frame \<Rightarrow> bool" where
  "open_hand_frame f =
     (case multi_hand_landmarks f of
        [h] \<Rightarrow> thumb_extended (extract_landmarks h) \<and> index_extended (extract_landmarks h)
               \<and> middle_extended (extract_landmarks h) \<and> ring_extended (extract_landmarks h)
               \<and> little_extended (extract_landmarks h)
      | _ \<Rightarrow> False)"

text \<open>Open palms 0.2 s apart after a first one, and open palms a full second apart.\<close>

definition debounce_example :: "frame list" where
  "debounce_example = [frame_at 1 [open_palm], frame_at (6/5) [open_palm], frame_at 2 [open_palm]]"

definition spaced_example :: "frame list" where
  "spaced_example = [frame_at 1 [open_palm], frame_at 2 [open_palm]]"

text \<open>Open palms 0.8 s apart, the first one 0.2 s after a session created at clock 0.\<close>

definition early_example :: "frame list" where
  "early_example = [frame_at (1/5) [open_palm], frame_at 1 [open_palm]]"

subsection \<open>An example session\<close>

text \<open>
  No key is pressed (\<open>cv2.waitKey(1) & 0xFF\<close> is 255).  The first frame shows an open palm
  and a pointing hand, the second frame shows no hand; then the camera closes.
\<close>

definition drag_session :: "tick list" where
  "drag_session =
     [\<lparr> key = 255, capture = Some (frame_at 0 [open_palm, pointing]) \<rparr>,
      \<lparr> key = 255, capture = Some (frame_at 1 []) \<rparr>]"

text \<open>The session after a first frame that starts a selection.\<close>

definition dragging :: app where
  "dragging = fst (process_frame (frame_at 0 [open_palm, pointing]) (init 0 1920 1080))"

section \<open>Properties\<close>

subsection \<open>A frame by the number of its hands\<close>

lemma hand_loop_other:
  "length all_hands \<noteq> 1 \<Longrightarrow> length all_hands \<noteq> 2 \<Longrightarrow>
   hand_loop all_hands now rest s = (s, [])"
  by (induction rest arbitrary: s) simp_all

lemma process_frame_no_hands:
  "multi_hand_landmarks f = [] \<Longrightarrow>
   process_frame f s = (s\<lparr>mode_message := ''No hands detected''\<rparr>, [])"
  by (simp add: process_frame_def)

lemma process_frame_one_hand:
  "multi_hand_landmarks f = [h] \<Longrightarrow>
   process_frame f s =
     process_single_hand (extract_landmarks h) (clock f) (s\<lparr>mode_message := ''One hand''\<rparr>)"
  by (simp add: process_frame_def split: prod.splits)

lemma process_frame_two_hands:
  "multi_hand_landmarks f = [h1, h2] \<Longrightarrow>
   process_frame f s =
     (let (s1, cmds1) = process_two_hands h1 h2 (s\<lparr>mode_message := ''Two hands''\<rparr>);
          (s2, cmds2) = process_two_hands h1 h2 (s1\<lparr>mode_message := ''Two hands''\<rparr>)
      in (s2, cmds1 @ cmds2))"
  by (simp add: process_frame_def split: prod.splits)

lemma process_frame_many_hands:
  "length (multi_hand_landmarks f) > 2 \<Longrightarrow>
   process_frame f s = (s\<lparr>mode_message := ''No hands detected''\<rparr>, [])"
  by (simp add: process_frame_def hand_loop_other)

lemma process_frame_two_hands_fst:
  "multi_hand_landmarks f = [h1, h2] \<Longrightarrow>
   fst (process_frame f s) =
     fst (process_two_hands h1 h2
           ((fst (process_two_hands h1 h2 (s\<lparr>mode_message := ''Two hands''\<rparr>)))
              \<lparr>mode_message := ''Two hands''\<rparr>))"
  by (simp add: process_frame_two_hands case_prod_beta)

lemma process_frame_two_hands_snd:
  "multi_hand_landmarks f = [h1, h2] \<Longrightarrow>
   snd (process_frame f s) =
     snd (process_two_hands h1 h2 (s\<lparr>mode_message := ''Two hands''\<rparr>))
     @ snd (process_two_hands h1 h2
             ((fst (process_two_hands h1 h2 (s\<lparr>mode_message := ''Two hands''\<rparr>)))
                \<lparr>mode_message := ''Two hands''\<rparr>))"
  by (simp add: process_frame_two_hands case_prod_beta)

text \<open>A frame has no hand, one hand, two hands or more than two.\<close>

lemma frame_cases [case_names none one two many]:
  obtains "multi_hand_landmarks f = []"
  | h where "multi_hand_landmarks f = [h]"
  | h1 h2 where "multi_hand_landmarks f = [h1, h2]"
  | "length (multi_hand_landmarks f) > 2"
proof (cases "multi_hand_landmarks f")
  case Nil
  then show ?thesis using that(1) by simp
next
  case (Cons a as)
  show ?thesis
  proof (cases as)
    case Nil
    with Cons show ?thesis using that(2) by simp
  next
    case (Cons b bs)
    show ?thesis
    proof (cases bs)
      case Nil
      with \<open>as = b # bs\<close> \<open>multi_hand_landmarks f = a # as\<close> show ?thesis using that(3) by simp
    next
      case (Cons c cs)
      with \<open>as = b # bs\<close> \<open>multi_hand_landmarks f = a # as\<close> show ?thesis using that(4) by simp
    qed
  qed
qed

lemmas example_defs =
  open_palm_def pointing_def peace_sign_def low_peace_sign_def midline_peace_sign_def
  level_middle_pointing_def pinched_open_palm_def pinch_fist_def
  frame_at_def
  pose_def lm_def extract_landmarks_def extended_def init_def

subsection \<open>The finger test\<close>

text \<open>
  Claim C8, as amended.  Every \<open>*_extended\<close> flag of \<open>extract_landmarks\<close> is \<open>extended\<close>
  applied to the y-coordinates of the finger's tip and joint, and to nothing else.  When
  \<open>extended a b\<close> holds, \<open>extended b a\<close> does not.  Swapping the two arguments flips the
  result exactly when they differ: at a tie the finger is not extended in either order.
\<close>

theorem extended_swap:
  "(extended a b \<longrightarrow> \<not> extended b a)
   \<and> (a \<noteq> b \<longrightarrow> extended b a = (\<not> extended a b))
   \<and> \<not> extended a a
   \<and> thumb_extended (extract_landmarks h)
       = extended (lm_y (h THUMB_TIP)) (lm_y (h THUMB_IP))
   \<and> index_extended (extract_landmarks h)
       = extended (lm_y (h INDEX_FINGER_TIP)) (lm_y (h INDEX_FINGER_PIP))
   \<and> middle_extended (extract_landmarks h)
       = extended (lm_y (h MIDDLE_FINGER_TIP)) (lm_y (h MIDDLE_FINGER_PIP))
   \<and> ring_extended (extract_landmarks h)
       = extended (lm_y (h RING_FINGER_TIP)) (lm_y (h RING_FINGER_PIP))
   \<and> little_extended (extract_landmarks h)
       = extended (lm_y (h PINKY_TIP)) (lm_y (h PINKY_PIP))"
  by (auto simp: extended_def extract_landmarks_def)

theorem extended_swap_witness:
  "extended (3/10) (1/2) \<and> \<not> extended (1/2) (3/10) \<and> (3/10 :: real) \<noteq> 1/2"
  using extended_swap [of "3/10" "1/2"] by (simp add: extended_def)

text \<open>
  Claim C8 as stated fails at a tie: with tip and joint both at \<open>y = 0.5\<close> the finger is
  not extended, and swapping the two equal values cannot flip that.
\<close>

theorem extended_swap_tie_counterexample:
  "\<not> extended (1/2) (1/2) \<and> \<not> (extended (1/2) (1/2) = (\<not> extended (1/2) (1/2)))"
  by (simp add: extended_def)

subsection \<open>One resolver call for every hand of the frame\<close>

text \<open>
  Claim C1 at a failing input.  \<open>process_frame\<close> calls the resolver inside its loop over
  the hands, so a frame with two hands runs \<open>process_two_hands\<close> twice.  With an open palm
  and a peace sign in the upper half the zoom-in key chord is sent twice in one frame;
  when a selection is active the same frame first releases the button and then zooms.
\<close>

theorem two_hand_frame_dispatches_twice:
  "snd (process_frame (frame_at 0 [open_palm, peace_sign]) (init 0 1920 1080))
     = [KeyDown ''ctrl'', Press ''+'', KeyUp ''ctrl'', KeyDown ''ctrl'', Press ''+'', KeyUp ''ctrl'']
   \<and> snd (process_frame (frame_at 0 [open_palm, peace_sign])
            ((init 0 1920 1080)\<lparr>selection_active := True\<rparr>))
     = [MouseUp, KeyDown ''ctrl'', Press ''+'', KeyUp ''ctrl'']"
  by (simp add: process_frame_two_hands process_two_hands_def hand1_all_extended_def
      hand2_index_only_def hand2_index_middle_def example_defs)

subsection \<open>Vertical scrolling\<close>

text \<open>
  Claim C3, as amended.  On a frame with one hand whose index and middle fingers are
  extended and whose ring and little fingers are not, exactly one scroll command is sent:
  down by 50 when the mean of the two tips' y-coordinates is greater than 0.5, up by 50
  otherwise, the mean 0.5 included.  A mean of 0.7 scrolls down by 50.
\<close>

theorem vertical_scroll:
  "multi_hand_landmarks f = [h]
   \<and> index_extended (extract_landmarks h) \<and> middle_extended (extract_landmarks h)
   \<and> \<not> ring_extended (extract_landmarks h) \<and> \<not> little_extended (extract_landmarks h)
   \<longrightarrow>
     snd (process_frame f s)
       = (if (lm_y (h INDEX_FINGER_TIP) + lm_y (h MIDDLE_FINGER_TIP)) / 2 > 1/2
          then [Scroll (- 50)] else [Scroll 50])
     \<and> ((lm_y (h INDEX_FINGER_TIP) + lm_y (h MIDDLE_FINGER_TIP)) / 2 = 7/10
          \<longrightarrow> snd (process_frame f s) = [Scroll (- 50)])"
  by (simp add: process_frame_one_hand process_single_hand_def SCROLL_SPEED_def
      extract_landmarks_def)

theorem vertical_scroll_witness:
  "index_extended (extract_landmarks low_peace_sign)
   \<and> middle_extended (extract_landmarks low_peace_sign)
   \<and> \<not> ring_extended (extract_landmarks low_peace_sign)
   \<and> \<not> little_extended (extract_landmarks low_peace_sign)
   \<and> (lm_y (low_peace_sign INDEX_FINGER_TIP) + lm_y (low_peace_sign MIDDLE_FINGER_TIP)) / 2 = 7/10
   \<and> snd (process_frame (frame_at 0 [low_peace_sign]) (init 0 1920 1080)) = [Scroll (- 50)]"
  using vertical_scroll [of "frame_at 0 [low_peace_sign]" low_peace_sign "init 0 1920 1080"]
  by (simp add: example_defs)

text \<open>
  Claim C3 as stated fails on the line: with both tips at \<open>y = 0.5\<close> the mean is 0.5,
  which the claim sends down, and the code scrolls up.
\<close>

theorem vertical_scroll_midline_counterexample:
  "index_extended (extract_landmarks midline_peace_sign)
   \<and> middle_extended (extract_landmarks midline_peace_sign)
   \<and> \<not> ring_extended (extract_landmarks midline_peace_sign)
   \<and> \<not> little_extended (extract_landmarks midline_peace_sign)
   \<and> (lm_y (midline_peace_sign INDEX_FINGER_TIP) + lm_y (midline_peace_sign MIDDLE_FINGER_TIP)) / 2 \<ge> 1/2
   \<and> snd (process_frame (frame_at 0 [midline_peace_sign]) (init 0 1920 1080)) = [Scroll 50]"
  by (simp add: process_frame_one_hand process_single_hand_def SCROLL_SPEED_def example_defs)

subsection \<open>Moving the cursor\<close>

text \<open>
  Claim C7.  On a frame with one hand whose index finger alone (of index, middle, ring and
  little) is extended, with the index tip \<open>(x, y)\<close> inside the frame (of the range
  \<open>[0, 1]\<close> of a landmark only \<open>0 \<le> x\<close> and \<open>0 \<le> y\<close> is needed) and a screen of
  non-negative width and height, the cursor is sent to
  \<open>(floor(x * screen_width), floor(y * screen_height + 30))\<close>.  An index tip at
  \<open>(0.5, 0.5)\<close> on a 1920 by 1080 screen gives \<open>(960, 570)\<close>.  On every such frame the
  position is \<open>int\<close> of the two products, which is their floor whenever they are not
  negative.
\<close>

theorem cursor_position:
  "multi_hand_landmarks f = [h]
   \<and> index_extended (extract_landmarks h) \<and> \<not> middle_extended (extract_landmarks h)
   \<and> \<not> ring_extended (extract_landmarks h) \<and> \<not> little_extended (extract_landmarks h)
   \<longrightarrow>
     (0 \<le> lm_x (h INDEX_FINGER_TIP) \<and> 0 \<le> lm_y (h INDEX_FINGER_TIP)
        \<and> 0 \<le> screen_width s \<and> 0 \<le> screen_height s
        \<longrightarrow> snd (process_frame f s)
              = [MoveToEased \<lfloor>lm_x (h INDEX_FINGER_TIP) * real_of_int (screen_width s)\<rfloor>
                             \<lfloor>lm_y (h INDEX_FINGER_TIP) * real_of_int (screen_height s) + 30\<rfloor>])
     \<and> (lm_x (h INDEX_FINGER_TIP) = 1/2 \<and> lm_y (h INDEX_FINGER_TIP) = 1/2
        \<and> screen_width s = 1920 \<and> screen_height s = 1080
        \<longrightarrow> snd (process_frame f s) = [MoveToEased 960 570])
     \<and> snd (process_frame f s)
       = [MoveToEased (py_int (lm_x (h INDEX_FINGER_TIP) * real_of_int (screen_width s)))
                      (py_int (lm_y (h INDEX_FINGER_TIP) * real_of_int (screen_height s) + 30))]
     \<and> (0 \<le> lm_x (h INDEX_FINGER_TIP) * real_of_int (screen_width s)
        \<and> 0 \<le> lm_y (h INDEX_FINGER_TIP) * real_of_int (screen_height s) + 30
        \<longrightarrow> snd (process_frame f s)
              = [MoveToEased \<lfloor>lm_x (h INDEX_FINGER_TIP) * real_of_int (screen_width s)\<rfloor>
                             \<lfloor>lm_y (h INDEX_FINGER_TIP) * real_of_int (screen_height s) + 30\<rfloor>])"
proof (intro impI conjI)
  assume a: "multi_hand_landmarks f = [h]
   \<and> index_extended (extract_landmarks h) \<and> \<not> middle_extended (extract_landmarks h)
   \<and> \<not> ring_extended (extract_landmarks h) \<and> \<not> little_extended (extract_landmarks h)"
  then show move: "snd (process_frame f s)
       = [MoveToEased (py_int (lm_x (h INDEX_FINGER_TIP) * real_of_int (screen_width s)))
                      (py_int (lm_y (h INDEX_FINGER_TIP) * real_of_int (screen_height s) + 30))]"
    by (simp add: process_frame_one_hand process_single_hand_def extract_landmarks_def)
  {
    assume "0 \<le> lm_x (h INDEX_FINGER_TIP) * real_of_int (screen_width s)
        \<and> 0 \<le> lm_y (h INDEX_FINGER_TIP) * real_of_int (screen_height s) + 30"
    with move show "snd (process_frame f s)
              = [MoveToEased \<lfloor>lm_x (h INDEX_FINGER_TIP) * real_of_int (screen_width s)\<rfloor>
                             \<lfloor>lm_y (h INDEX_FINGER_TIP) * real_of_int (screen_height s) + 30\<rfloor>]"
      by (simp add: py_int_def)
  }
  {
    assume c: "0 \<le> lm_x (h INDEX_FINGER_TIP) \<and> 0 \<le> lm_y (h INDEX_FINGER_TIP)
        \<and> 0 \<le> screen_width s \<and> 0 \<le> screen_height s"
    then have "0 \<le> lm_x (h INDEX_FINGER_TIP) * real_of_int (screen_width s)"
      and "0 \<le> lm_y (h INDEX_FINGER_TIP) * real_of_int (screen_height s)"
      by simp_all
    then have "0 \<le> lm_x (h INDEX_FINGER_TIP) * real_of_int (screen_width s)"
      and "0 \<le> lm_y (h INDEX_FINGER_TIP) * real_of_int (screen_height s) + 30"
      by simp_all
    with move show "snd (process_frame f s)
              = [MoveToEased \<lfloor>lm_x (h INDEX_FINGER_TIP) * real_of_int (screen_width s)\<rfloor>
                             \<lfloor>lm_y (h INDEX_FINGER_TIP) * real_of_int (screen_height s) + 30\<rfloor>]"
      by (simp add: py_int_def)
  }
  {
    assume b: "lm_x (h INDEX_FINGER_TIP) = 1/2 \<and> lm_y (h INDEX_FINGER_TIP) = 1/2
        \<and> screen_width s = 1920 \<and> screen_height s = 1080"
    have "py_int (1/2 * real_of_int 1920) = 960" "py_int (1/2 * real_of_int 1080 + 30) = 570"
      by (simp_all add: py_int_def)
    with move b show "snd (process_frame f s) = [MoveToEased 960 570]"
      by (simp only:)
  }
qed

theorem cursor_position_witness:
  "index_extended (extract_landmarks pointing) \<and> \<not> middle_extended (extract_landmarks pointing)
   \<and> \<not> ring_extended (extract_landmarks pointing) \<and> \<not> little_extended (extract_landmarks pointing)
   \<and> 0 \<le> lm_x (pointing INDEX_FINGER_TIP) \<and> 0 \<le> lm_y (pointing INDEX_FINGER_TIP)
   \<and> (0 :: int) \<le> screen_width (init 0 1920 1080) \<and> 0 \<le> screen_height (init 0 1920 1080)
   \<and> lm_x (pointing INDEX_FINGER_TIP) = 1/2 \<and> lm_y (pointing INDEX_FINGER_TIP) = 1/2
   \<and> snd (process_frame (frame_at 0 [pointing]) (init 0 1920 1080))
       = [MoveToEased \<lfloor>(1/2 :: real) * 1920\<rfloor> \<lfloor>(1/2 :: real) * 1080 + 30\<rfloor>]
   \<and> snd (process_frame (frame_at 0 [pointing]) (init 0 1920 1080)) = [MoveToEased 960 570]"
  using cursor_position [of "frame_at 0 [pointing]" pointing "init 0 1920 1080"]
  by (simp add: example_defs py_int_def)

subsection \<open>The order of the single-hand branches\<close>

text \<open>
  Claim C5.  \<open>process_single_hand\<close> does what the first matching rule of the ranked table
  move, vertical scroll, horizontal scroll, left click, right click, none prescribes.  A
  hand with only the index extended (of index, middle, ring and little) moves the cursor.
  A hand with all five fingers extended and a pinch distance below 0.05 takes the
  left-click branch: it clicks the left button when the cool-down has passed and does
  nothing otherwise, and never clicks the right button.
\<close>

theorem resolver_priority:
  "process_single_hand e t s = branch_body (spec_resolve e) e t s
   \<and> (index_extended e \<and> \<not> middle_extended e \<and> \<not> ring_extended e \<and> \<not> little_extended e
      \<longrightarrow> spec_resolve e = MoveCursor
          \<and> snd (process_single_hand e t s)
              = [MoveToEased (py_int (lm_x (index_tip e) * real_of_int (screen_width s)))
                             (py_int (lm_y (index_tip e) * real_of_int (screen_height s) + 30))])
   \<and> (thumb_extended e \<and> index_extended e \<and> middle_extended e \<and> ring_extended e
      \<and> little_extended e \<and> distance e < 0.05
      \<longrightarrow> spec_resolve e = LeftClick
          \<and> snd (process_single_hand e t s)
              = (if t - last_click_time s \<ge> 1/2 then [Click LeftButton] else [])
          \<and> Click RightButton \<notin> set (snd (process_single_hand e t s)))"
  by (simp add: process_single_hand_def spec_resolve_def spec_rules_def CLICK_COOLDOWN_def)

theorem resolver_priority_witness:
  "spec_resolve (extract_landmarks pointing) = MoveCursor
   \<and> snd (process_single_hand (extract_landmarks pointing) 1 (init 0 1920 1080))
       = [MoveToEased 960 570]
   \<and> distance (extract_landmarks pinched_open_palm) < 0.05
   \<and> thumb_extended (extract_landmarks pinched_open_palm)
   \<and> spec_resolve (extract_landmarks pinched_open_palm) = LeftClick
   \<and> snd (process_single_hand (extract_landmarks pinched_open_palm) 1 (init 0 1920 1080))
       = [Click LeftButton]"
  using resolver_priority [of "extract_landmarks pointing" 1 "init 0 1920 1080"]
    resolver_priority [of "extract_landmarks pinched_open_palm" 1 "init 0 1920 1080"]
  by (simp add: example_defs py_int_def CLICK_COOLDOWN_def)

subsection \<open>Starting and continuing a selection\<close>

text \<open>
  One call of \<open>process_two_hands\<close> on a first hand with all five fingers extended and a
  second hand whose index tip lies strictly above its joint and whose middle, ring and
  little tips lie strictly below theirs: it starts the selection at the first hand's
  index tip when none is active, and moves to the second hand's index tip.
\<close>

lemma drag_start_and_move:
  "thumb_extended (extract_landmarks hand1) \<and> index_extended (extract_landmarks hand1)
   \<and> middle_extended (extract_landmarks hand1) \<and> ring_extended (extract_landmarks hand1)
   \<and> little_extended (extract_landmarks hand1)
   \<and> lm_y (hand2 INDEX_FINGER_TIP) < lm_y (hand2 INDEX_FINGER_PIP)
   \<and> lm_y (hand2 MIDDLE_FINGER_TIP) > lm_y (hand2 MIDDLE_FINGER_PIP)
   \<and> lm_y (hand2 RING_FINGER_TIP) > lm_y (hand2 RING_FINGER_PIP)
   \<and> lm_y (hand2 PINKY_TIP) > lm_y (hand2 PINKY_PIP)
   \<longrightarrow>
     selection_active (fst (process_two_hands hand1 hand2 s))
     \<and> (\<not> selection_active s \<longrightarrow>
          snd (process_two_hands hand1 hand2 s)
            = [MoveTo (py_int (lm_x (hand1 INDEX_FINGER_TIP) * real_of_int (screen_width s)))
                      (py_int (lm_y (hand1 INDEX_FINGER_TIP) * real_of_int (screen_height s))),
               MouseDown,
               MoveTo (py_int (lm_x (hand2 INDEX_FINGER_TIP) * real_of_int (screen_width s)))
                      (py_int (lm_y (hand2 INDEX_FINGER_TIP) * real_of_int (screen_height s)))])
     \<and> (selection_active s \<longrightarrow>
          snd (process_two_hands hand1 hand2 s)
            = [MoveTo (py_int (lm_x (hand2 INDEX_FINGER_TIP) * real_of_int (screen_width s)))
                      (py_int (lm_y (hand2 INDEX_FINGER_TIP) * real_of_int (screen_height s)))])"
  by (simp add: process_two_hands_def hand1_all_extended_def hand2_index_only_def
      extract_landmarks_def extended_def)

lemma example_poses:
  "hand1_all_extended open_palm" "hand2_index_only pointing" "\<not> hand2_index_only peace_sign"
  "hand2_index_middle peace_sign" "\<not> hand2_index_only level_middle_pointing"
  "\<not> hand2_index_middle level_middle_pointing"
  by (simp_all add: hand1_all_extended_def hand2_index_only_def hand2_index_middle_def
      open_palm_def pointing_def peace_sign_def level_middle_pointing_def pose_def lm_def)

lemma example_tips:
  "lm_x (open_palm INDEX_FINGER_TIP) = 2/5" "lm_y (open_palm INDEX_FINGER_TIP) = 3/10"
  "lm_x (pointing INDEX_FINGER_TIP) = 1/2" "lm_y (pointing INDEX_FINGER_TIP) = 1/2"
  by (simp_all add: open_palm_def pointing_def pose_def lm_def)

text \<open>
  Claim C6 at a failing input.  The first hand is an open palm; the second hand has its
  index extended and its thumb, middle, ring and little fingers not extended, the middle
  tip being level with its joint.  No selection is active.  The claim starts a drag on
  this frame.  \<open>process_two_hands\<close> tests \<open>tip.y > pip.y\<close> for the three flexed fingers,
  where the finger test of \<open>extract_landmarks\<close> calls a level tip not extended, so it
  sends nothing and no selection becomes active.  With the middle tip below its joint the
  frame does start the drag; the move to the second hand's index tip is then sent twice,
  once by each of the two resolver calls of the frame.
\<close>

theorem drag_level_tip_no_start:
  "thumb_extended (extract_landmarks open_palm) \<and> index_extended (extract_landmarks open_palm)
   \<and> middle_extended (extract_landmarks open_palm) \<and> ring_extended (extract_landmarks open_palm)
   \<and> little_extended (extract_landmarks open_palm)
   \<and> index_extended (extract_landmarks level_middle_pointing)
   \<and> \<not> thumb_extended (extract_landmarks level_middle_pointing)
   \<and> \<not> middle_extended (extract_landmarks level_middle_pointing)
   \<and> \<not> ring_extended (extract_landmarks level_middle_pointing)
   \<and> \<not> little_extended (extract_landmarks level_middle_pointing)
   \<and> \<not> selection_active (init 0 1920 1080)
   \<and> process_two_hands open_palm level_middle_pointing (init 0 1920 1080)
       = (init 0 1920 1080, [])
   \<and> snd (process_frame (frame_at 0 [open_palm, level_middle_pointing]) (init 0 1920 1080)) = []
   \<and> \<not> selection_active
         (fst (process_frame (frame_at 0 [open_palm, level_middle_pointing]) (init 0 1920 1080)))
   \<and> snd (process_frame (frame_at 0 [open_palm, pointing]) (init 0 1920 1080))
       = [MoveTo 768 324, MouseDown, MoveTo 960 540, MoveTo 960 540]"
proof -
  have flags:
    "thumb_extended (extract_landmarks open_palm) \<and> index_extended (extract_landmarks open_palm)
     \<and> middle_extended (extract_landmarks open_palm) \<and> ring_extended (extract_landmarks open_palm)
     \<and> little_extended (extract_landmarks open_palm)
     \<and> index_extended (extract_landmarks level_middle_pointing)
     \<and> \<not> thumb_extended (extract_landmarks level_middle_pointing)
     \<and> \<not> middle_extended (extract_landmarks level_middle_pointing)
     \<and> \<not> ring_extended (extract_landmarks level_middle_pointing)
     \<and> \<not> little_extended (extract_landmarks level_middle_pointing)
     \<and> \<not> selection_active (init 0 1920 1080)"
    by (simp add: example_defs)
  have call: "process_two_hands open_palm level_middle_pointing (init 0 1920 1080)
       = (init 0 1920 1080, [])"
    by (simp add: process_two_hands_def example_poses init_def)
  have level: "process_frame (frame_at 0 [open_palm, level_middle_pointing]) (init 0 1920 1080)
       = ((init 0 1920 1080)\<lparr>mode_message := ''Two hands''\<rparr>, [])"
    by (simp add: process_frame_two_hands process_two_hands_def example_poses init_def
        frame_at_def)
  have strict: "snd (process_frame (frame_at 0 [open_palm, pointing]) (init 0 1920 1080))
       = [MoveTo 768 324, MouseDown, MoveTo 960 540, MoveTo 960 540]"
    by (simp add: process_frame_two_hands_snd process_two_hands_def example_poses example_tips
        py_int_def init_def frame_at_def)
  from flags call level strict show ?thesis
    by (simp add: init_def)
qed

subsection \<open>What each resolver leaves alone\<close>

text \<open>
  Claim C10.  \<open>process_single_hand\<close> leaves \<open>selection_active\<close> and \<open>selection_start\<close> as
  they were and \<open>process_two_hands\<close> leaves \<open>last_click_time\<close> as it was.  The single-hand
  resolver changes no field but \<open>last_click_time\<close> and \<open>status_message\<close>; the two-hand
  resolver changes no field but \<open>selection_active\<close> and \<open>status_message\<close>.
\<close>

theorem resolver_frame:
  "selection_active (fst (process_single_hand e t s)) = selection_active s
   \<and> selection_start (fst (process_single_hand e t s)) = selection_start s
   \<and> last_click_time (fst (process_two_hands hand1 hand2 s)) = last_click_time s
   \<and> (fst (process_single_hand e t s))
        \<lparr>last_click_time := last_click_time s, status_message := status_message s\<rparr> = s
   \<and> (fst (process_two_hands hand1 hand2 s))
        \<lparr>selection_active := selection_active s, status_message := status_message s\<rparr> = s"
  by (simp add: process_single_hand_def process_two_hands_def Let_def)

theorem resolver_frame_witness:
  "\<not> selection_active (fst (process_single_hand (extract_landmarks pinched_open_palm) 1 (init 0 1920 1080)))
   \<and> selection_start (fst (process_single_hand (extract_landmarks pinched_open_palm) 1 (init 0 1920 1080)))
       = None
   \<and> last_click_time (fst (process_two_hands open_palm pointing (init 0 1920 1080))) = 0"
  using resolver_frame [of "extract_landmarks pinched_open_palm" 1 "init 0 1920 1080" open_palm pointing]
  by (simp add: init_def)

subsection \<open>The time stamp of the last click\<close>

lemma single_hand_last_click_mono:
  "last_click_time s \<le> last_click_time (fst (process_single_hand e t s))"
  by (simp add: process_single_hand_def CLICK_COOLDOWN_def)

lemma single_hand_click:
  "Click b \<in> set (snd (process_single_hand e t s)) \<Longrightarrow>
   t - last_click_time s \<ge> 1/2 \<and> last_click_time (fst (process_single_hand e t s)) = t"
  by (simp add: process_single_hand_def CLICK_COOLDOWN_def split: if_splits)

lemma two_hands_last_click:
  "last_click_time (fst (process_two_hands h1 h2 s)) = last_click_time s"
  by (simp add: process_two_hands_def Let_def)

lemma two_hands_no_click:
  "Click b \<notin> set (snd (process_two_hands h1 h2 s))"
  by (simp add: process_two_hands_def Let_def)

lemma process_frame_last_click_mono:
  "last_click_time s \<le> last_click_time (fst (process_frame f s))"
proof (cases f rule: frame_cases)
  case none
  then show ?thesis by (simp add: process_frame_no_hands)
next
  case (one h)
  then show ?thesis
    using single_hand_last_click_mono [of "s\<lparr>mode_message := ''One hand''\<rparr>"]
    by (simp add: process_frame_one_hand)
next
  case (two h1 h2)
  then show ?thesis
    by (simp add: process_frame_two_hands_fst two_hands_last_click)
next
  case many
  then show ?thesis by (simp add: process_frame_many_hands)
qed

lemma process_frame_click:
  assumes "Click b \<in> set (snd (process_frame f s))"
  shows "clock f - last_click_time s \<ge> 1/2 \<and> last_click_time (fst (process_frame f s)) = clock f"
proof (cases f rule: frame_cases)
  case none
  with assms show ?thesis by (simp add: process_frame_no_hands)
next
  case (one h)
  with assms show ?thesis
    using single_hand_click [of b "extract_landmarks h" "clock f" "s\<lparr>mode_message := ''One hand''\<rparr>"]
    by (simp add: process_frame_one_hand)
next
  case (two h1 h2)
  with assms show ?thesis
    by (simp add: process_frame_two_hands_snd two_hands_no_click)
next
  case many
  with assms show ?thesis by (simp add: process_frame_many_hands)
qed

lemma after_frames_append:
  "after_frames (fs @ gs) s = after_frames gs (after_frames fs s)"
  by (induction fs arbitrary: s) simp_all

lemma after_frames_last_click_mono:
  "last_click_time s \<le> last_click_time (after_frames fs s)"
proof (induction fs arbitrary: s)
  case Nil
  show ?case by simp
next
  case (Cons f fs)
  have "last_click_time s \<le> last_click_time (fst (process_frame f s))"
    by (rule process_frame_last_click_mono)
  also have "\<dots> \<le> last_click_time (after_frames fs (fst (process_frame f s)))"
    by (rule Cons.IH)
  finally show ?case by simp
qed

lemma length_run_frames: "length (run_frames fs s) = length fs"
  by (induction fs arbitrary: s) simp_all

lemma run_frames_nth:
  "i < length fs \<Longrightarrow> run_frames fs s ! i = process_frame (fs ! i) (after_frames (take i fs) s)"
proof (induction fs arbitrary: s i)
  case Nil
  then show ?case by simp
next
  case (Cons f fs)
  then show ?case by (cases i) simp_all
qed

lemma after_frames_take_Suc:
  "i < length fs \<Longrightarrow>
   after_frames (take (Suc i) fs) s = fst (process_frame (fs ! i) (after_frames (take i fs) s))"
  by (simp add: take_Suc_conv_app_nth after_frames_append)

lemma after_frames_take_mono:
  assumes "i \<le> j"
  shows "last_click_time (after_frames (take i fs) s) \<le> last_click_time (after_frames (take j fs) s)"
proof -
  have "take j fs = take i fs @ take (j - i) (drop i fs)"
    using assms by (metis le_add_diff_inverse take_add)
  then show ?thesis
    by (simp add: after_frames_append after_frames_last_click_mono)
qed

text \<open>
  A click on frame \<open>i\<close> sets the stamp to the clock of that frame, and the stamp never
  decreases afterwards.
\<close>

lemma click_then_stamp:
  assumes "i < j" "j < length fs" "Click b \<in> set (snd (run_frames fs s ! i))"
  shows "clock (fs ! i) \<le> last_click_time (after_frames (take j fs) s)"
proof -
  from assms have i: "i < length fs" by simp
  with assms(3) have "Click b \<in> set (snd (process_frame (fs ! i) (after_frames (take i fs) s)))"
    by (simp add: run_frames_nth)
  then have "last_click_time (fst (process_frame (fs ! i) (after_frames (take i fs) s))) = clock (fs ! i)"
    by (rule process_frame_click [THEN conjunct2])
  with i have "last_click_time (after_frames (take (Suc i) fs) s) = clock (fs ! i)"
    by (simp add: after_frames_take_Suc)
  moreover have "last_click_time (after_frames (take (Suc i) fs) s)
                 \<le> last_click_time (after_frames (take j fs) s)"
    using assms(1) by (intro after_frames_take_mono) simp
  ultimately show ?thesis by simp
qed

lemma no_click_before_cooldown:
  assumes "i < length fs" "clock (fs ! i) - last_click_time s < 1/2"
  shows "Click b \<notin> set (snd (run_frames fs s ! i))"
proof
  assume "Click b \<in> set (snd (run_frames fs s ! i))"
  with assms(1) have "Click b \<in> set (snd (process_frame (fs ! i) (after_frames (take i fs) s)))"
    by (simp add: run_frames_nth)
  then have "clock (fs ! i) - last_click_time (after_frames (take i fs) s) \<ge> 1/2"
    by (rule process_frame_click [THEN conjunct1])
  moreover have "last_click_time s \<le> last_click_time (after_frames (take i fs) s)"
    by (rule after_frames_last_click_mono)
  ultimately show False using assms(2) by simp
qed

lemma no_click_after_click:
  assumes "i < j" "j < length fs" "Click b \<in> set (snd (run_frames fs s ! i))"
    "clock (fs ! j) - clock (fs ! i) < 1/2"
  shows "Click b' \<notin> set (snd (run_frames fs s ! j))"
proof
  assume "Click b' \<in> set (snd (run_frames fs s ! j))"
  with assms(2) have "Click b' \<in> set (snd (process_frame (fs ! j) (after_frames (take j fs) s)))"
    by (simp add: run_frames_nth)
  then have "clock (fs ! j) - last_click_time (after_frames (take j fs) s) \<ge> 1/2"
    by (rule process_frame_click [THEN conjunct1])
  moreover have "clock (fs ! i) \<le> last_click_time (after_frames (take j fs) s)"
    using assms(1-3) by (rule click_then_stamp)
  ultimately show False using assms(4) by simp
qed

subsection \<open>The cool-down of both click branches\<close>

text \<open>
  Claim C9.  On a session created at clock \<open>t0\<close>, a frame whose clock reads less than
  0.5 s after \<open>t0\<close> clicks neither button, whatever the frames before it and whatever its
  pose.  In any run, when a frame clicks either button, a later frame whose clock reads
  less than 0.5 s after that frame's clicks neither button.
\<close>

theorem click_cooldown:
  "(\<forall>i. i < length fs \<and> clock (fs ! i) - t0 < 1/2 \<longrightarrow>
        Click LeftButton \<notin> set (snd (run_frames fs (init t0 w h) ! i))
      \<and> Click RightButton \<notin> set (snd (run_frames fs (init t0 w h) ! i)))
   \<and> (\<forall>i j b. i < j \<and> j < length fs \<and> Click b \<in> set (snd (run_frames fs s ! i))
        \<and> clock (fs ! j) - clock (fs ! i) < 1/2 \<longrightarrow>
        Click LeftButton \<notin> set (snd (run_frames fs s ! j))
      \<and> Click RightButton \<notin> set (snd (run_frames fs s ! j)))"
proof (intro conjI allI impI)
  fix i
  assume a: "i < length fs \<and> clock (fs ! i) - t0 < 1/2"
  then have "clock (fs ! i) - last_click_time (init t0 w h) < 1/2"
    by (simp add: init_def)
  with a show "Click LeftButton \<notin> set (snd (run_frames fs (init t0 w h) ! i))"
    and "Click RightButton \<notin> set (snd (run_frames fs (init t0 w h) ! i))"
    by (simp_all add: no_click_before_cooldown)
next
  fix i j b
  assume a: "i < j \<and> j < length fs \<and> Click b \<in> set (snd (run_frames fs s ! i))
        \<and> clock (fs ! j) - clock (fs ! i) < 1/2"
  then have "i < j" "j < length fs" "Click b \<in> set (snd (run_frames fs s ! i))"
    "clock (fs ! j) - clock (fs ! i) < 1/2"
    by simp_all
  then show "Click LeftButton \<notin> set (snd (run_frames fs s ! j))"
    and "Click RightButton \<notin> set (snd (run_frames fs s ! j))"
    by (rule no_click_after_click)+
qed

theorem click_cooldown_witness:
  "(0::nat) < length cooldown_example \<and> clock (cooldown_example ! 0) - 0 < 1/2
   \<and> Click LeftButton \<notin> set (snd (run_frames cooldown_example (init 0 1920 1080) ! 0))
   \<and> (1::nat) < 2 \<and> 2 < length cooldown_example
   \<and> Click LeftButton \<in> set (snd (run_frames cooldown_example (init 0 1920 1080) ! 1))
   \<and> clock (cooldown_example ! 2) - clock (cooldown_example ! 1) < 1/2
   \<and> Click RightButton \<notin> set (snd (run_frames cooldown_example (init 0 1920 1080) ! 2))"
proof -
  have len: "length cooldown_example = 3"
    by (simp add: cooldown_example_def)
  have clocks: "clock (cooldown_example ! 0) = 1/5" "clock (cooldown_example ! 1) = 1"
    "clock (cooldown_example ! 2) = 6/5"
    by (simp_all add: cooldown_example_def frame_at_def)
  have fired: "Click LeftButton \<in> set (snd (run_frames cooldown_example (init 0 1920 1080) ! 1))"
    by (simp add: cooldown_example_def process_frame_one_hand process_single_hand_def
        CLICK_COOLDOWN_def example_defs)
  note c = click_cooldown [of cooldown_example 0 1920 1080 "init 0 1920 1080"]
  have h0: "0 < length cooldown_example \<and> clock (cooldown_example ! 0) - 0 < 1/2"
    using len clocks by simp
  have h1: "(1::nat) < 2 \<and> 2 < length cooldown_example
      \<and> Click LeftButton \<in> set (snd (run_frames cooldown_example (init 0 1920 1080) ! 1))
      \<and> clock (cooldown_example ! 2) - clock (cooldown_example ! 1) < 1/2"
    using len clocks fired by simp
  from c h0 have "Click LeftButton \<notin> set (snd (run_frames cooldown_example (init 0 1920 1080) ! 0))"
    by blast
  moreover from c h1
  have "Click RightButton \<notin> set (snd (run_frames cooldown_example (init 0 1920 1080) ! 2))"
    by blast
  ultimately show ?thesis using h0 h1 by blast
qed

subsection \<open>The left click of an open hand\<close>

lemma open_hand_frame_step:
  assumes "open_hand_frame f"
  shows "process_frame f s =
     (if clock f - last_click_time s \<ge> 1/2
      then (s\<lparr>mode_message := ''One hand'', last_click_time := clock f,
               status_message := ''Left Click''\<rparr>, [Click LeftButton])
      else (s\<lparr>mode_message := ''One hand''\<rparr>, []))"
proof -
  from assms obtain h where h: "multi_hand_landmarks f = [h]"
    and fl: "thumb_extended (extract_landmarks h)" "index_extended (extract_landmarks h)"
      "middle_extended (extract_landmarks h)" "ring_extended (extract_landmarks h)"
      "little_extended (extract_landmarks h)"
    by (auto simp: open_hand_frame_def split: list.splits)
  show ?thesis
    using fl by (simp add: process_frame_one_hand [OF h] process_single_hand_def CLICK_COOLDOWN_def)
qed

lemma clicks_spaced:
  assumes "i < j" "j < length fs" "Click b \<in> set (snd (run_frames fs s ! i))"
    "Click b' \<in> set (snd (run_frames fs s ! j))"
  shows "clock (fs ! j) - clock (fs ! i) \<ge> 1/2"
proof -
  from assms(2,4) have "Click b' \<in> set (snd (process_frame (fs ! j) (after_frames (take j fs) s)))"
    by (simp add: run_frames_nth)
  then have "clock (fs ! j) - last_click_time (after_frames (take j fs) s) \<ge> 1/2"
    by (rule process_frame_click [THEN conjunct1])
  moreover have "clock (fs ! i) \<le> last_click_time (after_frames (take j fs) s)"
    using assms(1-3) by (rule click_then_stamp)
  ultimately show ?thesis by simp
qed

lemma spaced_frames_all_click:
  assumes op: "\<forall>f \<in> set fs. open_hand_frame f"
    and first: "clock (fs ! 0) - last_click_time s \<ge> 1/2"
    and gap: "\<forall>i. Suc i < length fs \<longrightarrow> clock (fs ! Suc i) - clock (fs ! i) \<ge> 1/2"
  shows "i < length fs \<Longrightarrow>
         clock (fs ! i) - last_click_time (after_frames (take i fs) s) \<ge> 1/2"
proof (induction i)
  case 0
  with first show ?case by simp
next
  case (Suc i)
  then have i: "i < length fs" by simp
  with op have o: "open_hand_frame (fs ! i)" by simp
  from Suc.IH i have g: "clock (fs ! i) - last_click_time (after_frames (take i fs) s) \<ge> 1/2"
    by simp
  have "last_click_time (after_frames (take (Suc i) fs) s) = clock (fs ! i)"
    using g by (simp add: after_frames_take_Suc [OF i] open_hand_frame_step [OF o])
  with gap Suc.prems show ?case by simp
qed

text \<open>
  Claim C4, as amended.  In a run of frames that each show one fully open hand, a frame issues
  exactly the command \<open>Click LeftButton\<close> when its clock reads at least 0.5 s more than
  \<open>last_click_time\<close> of the session before it, and then \<open>last_click_time\<close> becomes that
  clock; otherwise it issues nothing and \<open>last_click_time\<close> stays.  Two frames that both
  click lie at least 0.5 s apart, so no window shorter than 0.5 s holds two clicks.  When
  the first frame comes at least 0.5 s after \<open>last_click_time\<close> and every frame at least
  0.5 s after the one before, every frame issues exactly one left click.
\<close>

theorem left_click_debounce:
  assumes "\<forall>f \<in> set fs. open_hand_frame f"
  shows
    "(\<forall>i. i < length fs \<longrightarrow>
        snd (run_frames fs s ! i)
          = (if clock (fs ! i) - last_click_time (after_frames (take i fs) s) \<ge> 1/2
             then [Click LeftButton] else [])
      \<and> last_click_time (fst (run_frames fs s ! i))
          = (if clock (fs ! i) - last_click_time (after_frames (take i fs) s) \<ge> 1/2
             then clock (fs ! i) else last_click_time (after_frames (take i fs) s)))
     \<and> (\<forall>i j. i < j \<and> j < length fs
          \<and> Click LeftButton \<in> set (snd (run_frames fs s ! i))
          \<and> Click LeftButton \<in> set (snd (run_frames fs s ! j))
          \<longrightarrow> clock (fs ! j) - clock (fs ! i) \<ge> 1/2)
     \<and> (fs \<noteq> [] \<and> clock (fs ! 0) - last_click_time s \<ge> 1/2
         \<and> (\<forall>i. Suc i < length fs \<longrightarrow> clock (fs ! Suc i) - clock (fs ! i) \<ge> 1/2)
         \<longrightarrow> (\<forall>i. i < length fs \<longrightarrow> snd (run_frames fs s ! i) = [Click LeftButton]))"
proof (intro conjI allI impI)
  fix i
  assume i: "i < length fs"
  with assms have o: "open_hand_frame (fs ! i)" by simp
  show "snd (run_frames fs s ! i)
          = (if clock (fs ! i) - last_click_time (after_frames (take i fs) s) \<ge> 1/2
             then [Click LeftButton] else [])"
    by (simp add: run_frames_nth [OF i] open_hand_frame_step [OF o])
  show "last_click_time (fst (run_frames fs s ! i))
          = (if clock (fs ! i) - last_click_time (after_frames (take i fs) s) \<ge> 1/2
             then clock (fs ! i) else last_click_time (after_frames (take i fs) s))"
    by (simp add: run_frames_nth [OF i] open_hand_frame_step [OF o])
next
  fix i j
  assume "i < j \<and> j < length fs
          \<and> Click LeftButton \<in> set (snd (run_frames fs s ! i))
          \<and> Click LeftButton \<in> set (snd (run_frames fs s ! j))"
  then have "i < j" "j < length fs" "Click LeftButton \<in> set (snd (run_frames fs s ! i))"
    "Click LeftButton \<in> set (snd (run_frames fs s ! j))"
    by simp_all
  then show "clock (fs ! j) - clock (fs ! i) \<ge> 1/2"
    by (rule clicks_spaced)
next
  fix i
  assume a: "fs \<noteq> [] \<and> clock (fs ! 0) - last_click_time s \<ge> 1/2
         \<and> (\<forall>i. Suc i < length fs \<longrightarrow> clock (fs ! Suc i) - clock (fs ! i) \<ge> 1/2)"
    and i: "i < length fs"
  with assms have o: "open_hand_frame (fs ! i)" by simp
  from a have "clock (fs ! 0) - last_click_time s \<ge> 1/2"
    and "\<forall>i. Suc i < length fs \<longrightarrow> clock (fs ! Suc i) - clock (fs ! i) \<ge> 1/2"
    by simp_all
  with assms have "clock (fs ! i) - last_click_time (after_frames (take i fs) s) \<ge> 1/2"
    using i by (rule spaced_frames_all_click)
  then show "snd (run_frames fs s ! i) = [Click LeftButton]"
    by (simp add: run_frames_nth [OF i] open_hand_frame_step [OF o])
qed

theorem left_click_debounce_witness:
  "open_hand_frame (spaced_example ! 0) \<and> open_hand_frame (spaced_example ! 1)
   \<and> clock (spaced_example ! 0) - last_click_time (init 0 1920 1080) \<ge> 1/2
   \<and> clock (spaced_example ! 1) - clock (spaced_example ! 0) \<ge> 1/2
   \<and> snd (run_frames spaced_example (init 0 1920 1080) ! 0) = [Click LeftButton]
   \<and> snd (run_frames spaced_example (init 0 1920 1080) ! 1) = [Click LeftButton]
   \<and> open_hand_frame (debounce_example ! 0) \<and> open_hand_frame (debounce_example ! 1)
   \<and> open_hand_frame (debounce_example ! 2)
   \<and> snd (run_frames debounce_example (init 0 1920 1080) ! 0) = [Click LeftButton]
   \<and> snd (run_frames debounce_example (init 0 1920 1080) ! 1) = []
   \<and> snd (run_frames debounce_example (init 0 1920 1080) ! 2) = [Click LeftButton]"
proof -
  have palm: "open_hand_frame (frame_at t [open_palm])" for t
    by (simp add: open_hand_frame_def example_defs)
  have op: "\<forall>f \<in> set spaced_example. open_hand_frame f"
    by (simp add: spaced_example_def palm)
  have op': "\<forall>f \<in> set debounce_example. open_hand_frame f"
    by (simp add: debounce_example_def palm)
  have len: "length spaced_example = 2" "length debounce_example = 3"
    by (simp_all add: spaced_example_def debounce_example_def)
  have clocks: "clock (spaced_example ! 0) = 1" "clock (spaced_example ! 1) = 2"
    by (simp_all add: spaced_example_def frame_at_def)
  have gaps: "\<forall>i. Suc i < length spaced_example \<longrightarrow>
                clock (spaced_example ! Suc i) - clock (spaced_example ! i) \<ge> 1/2"
  proof (intro allI impI)
    fix i assume "Suc i < length spaced_example"
    with len have "i = 0" by simp
    with clocks show "clock (spaced_example ! Suc i) - clock (spaced_example ! i) \<ge> 1/2"
      by simp
  qed
  have first: "clock (spaced_example ! 0) - last_click_time (init 0 1920 1080) \<ge> 1/2"
    using clocks by (simp add: init_def)
  have ne: "spaced_example \<noteq> []"
    by (simp add: spaced_example_def)
  from left_click_debounce [OF op, of "init 0 1920 1080"] ne first gaps
  have every: "\<forall>i. i < length spaced_example \<longrightarrow>
                 snd (run_frames spaced_example (init 0 1920 1080) ! i) = [Click LeftButton]"
    by blast
  from every len have s0: "snd (run_frames spaced_example (init 0 1920 1080) ! 0) = [Click LeftButton]"
    and s1: "snd (run_frames spaced_example (init 0 1920 1080) ! 1) = [Click LeftButton]"
    by simp_all
  have before: "after_frames (take 0 debounce_example) (init 0 1920 1080) = init 0 1920 1080"
    by simp
  from left_click_debounce [OF op', of "init 0 1920 1080"] len
  have at: "snd (run_frames debounce_example (init 0 1920 1080) ! i)
          = (if clock (debounce_example ! i)
                - last_click_time (after_frames (take i debounce_example) (init 0 1920 1080)) \<ge> 1/2
             then [Click LeftButton] else [])" if "i < 3" for i
    using that by simp
  have stamp0: "last_click_time (after_frames (take 0 debounce_example) (init 0 1920 1080)) = 0"
    by (simp add: init_def)
  have clk: "clock (frame_at t hs) = t" for t hs
    by (simp add: frame_at_def)
  have stamp1: "last_click_time (after_frames (take 1 debounce_example) (init 0 1920 1080)) = 1"
    by (simp add: debounce_example_def open_hand_frame_step [OF palm] clk init_def)
  have stamp2: "last_click_time (after_frames (take 2 debounce_example) (init 0 1920 1080)) = 1"
    by (simp add: debounce_example_def open_hand_frame_step [OF palm] clk init_def
        numeral_2_eq_2)
  have dclocks: "clock (debounce_example ! 0) = 1" "clock (debounce_example ! 1) = 6/5"
    "clock (debounce_example ! 2) = 2"
    by (simp_all add: debounce_example_def frame_at_def)
  have d0: "snd (run_frames debounce_example (init 0 1920 1080) ! 0) = [Click LeftButton]"
    using at [of 0] stamp0 dclocks by simp
  have d1: "snd (run_frames debounce_example (init 0 1920 1080) ! 1) = []"
    using at [of 1] stamp1 dclocks by simp
  have d2: "snd (run_frames debounce_example (init 0 1920 1080) ! 2) = [Click LeftButton]"
    using at [of 2] stamp2 dclocks by simp
  have o: "open_hand_frame (spaced_example ! 0)" "open_hand_frame (spaced_example ! 1)"
    "open_hand_frame (debounce_example ! 0)" "open_hand_frame (debounce_example ! 1)"
    "open_hand_frame (debounce_example ! 2)"
    by (simp_all add: spaced_example_def debounce_example_def palm)
  from o first clocks s0 s1 d0 d1 d2 show ?thesis by simp
qed

text \<open>
  Claim C4 as stated fails on its last clause when the run starts too early: on a session
  created at clock 0, open palms at 0.2 s and 1.0 s lie 0.8 s apart, yet the first frame
  issues nothing, as less than 0.5 s have passed since \<open>last_click_time\<close>.
\<close>

theorem left_click_first_frame_counterexample:
  "open_hand_frame (early_example ! 0) \<and> open_hand_frame (early_example ! 1)
   \<and> clock (early_example ! 1) - clock (early_example ! 0) \<ge> 1/2
   \<and> snd (run_frames early_example (init 0 1920 1080) ! 0) = []
   \<and> snd (run_frames early_example (init 0 1920 1080) ! 1) = [Click LeftButton]"
proof -
  have palm: "open_hand_frame (frame_at t [open_palm])" for t
    by (simp add: open_hand_frame_def example_defs)
  have clk: "clock (frame_at t hs) = t" for t hs
    by (simp add: frame_at_def)
  show ?thesis
    by (simp add: early_example_def palm clk open_hand_frame_step [OF palm] init_def)
qed

subsection \<open>Releasing the selection\<close>

lemma no_double_release_append:
  "no_double_release r (xs @ ys) =
     (no_double_release r xs \<and> no_double_release (released_after r xs) ys)"
  by (induction xs arbitrary: r) simp_all

lemma released_after_append:
  "released_after r (xs @ ys) = released_after (released_after r xs) ys"
  by (induction xs arbitrary: r) simp_all

lemma single_hand_no_button:
  "MouseUp \<notin> set (snd (process_single_hand e t s))
   \<and> MouseDown \<notin> set (snd (process_single_hand e t s))
   \<and> selection_active (fst (process_single_hand e t s)) = selection_active s"
  by (simp add: process_single_hand_def)

lemma no_button_trace:
  "MouseUp \<notin> set cmds \<Longrightarrow> MouseDown \<notin> set cmds \<Longrightarrow>
   no_double_release r cmds \<and> released_after r cmds = r"
  by (induction cmds) auto

lemma two_hands_release_inv:
  assumes "r \<longrightarrow> \<not> selection_active s"
  shows "no_double_release r (snd (process_two_hands h1 h2 s))
         \<and> (released_after r (snd (process_two_hands h1 h2 s))
              \<longrightarrow> \<not> selection_active (fst (process_two_hands h1 h2 s)))"
  using assms by (auto simp: process_two_hands_def Let_def)

lemma process_frame_release_inv:
  assumes "r \<longrightarrow> \<not> selection_active s"
  shows "no_double_release r (snd (process_frame f s))
         \<and> (released_after r (snd (process_frame f s))
              \<longrightarrow> \<not> selection_active (fst (process_frame f s)))"
proof (cases f rule: frame_cases)
  case none
  with assms show ?thesis by (simp add: process_frame_no_hands)
next
  case (one h)
  have "MouseUp \<notin> set (snd (process_frame f s))" "MouseDown \<notin> set (snd (process_frame f s))"
    "selection_active (fst (process_frame f s)) = selection_active s"
    using single_hand_no_button [of "extract_landmarks h" "clock f" "s\<lparr>mode_message := ''One hand''\<rparr>"]
    by (simp_all add: process_frame_one_hand [OF one])
  with assms show ?thesis
    using no_button_trace [of "snd (process_frame f s)" r] by simp
next
  case (two h1 h2)
  let ?s0 = "s\<lparr>mode_message := ''Two hands''\<rparr>"
  let ?s1 = "(fst (process_two_hands h1 h2 ?s0))\<lparr>mode_message := ''Two hands''\<rparr>"
  let ?c1 = "snd (process_two_hands h1 h2 ?s0)"
  from assms have a0: "r \<longrightarrow> \<not> selection_active ?s0" by simp
  from two_hands_release_inv [OF a0]
  have 1: "no_double_release r ?c1" and a1: "released_after r ?c1 \<longrightarrow> \<not> selection_active ?s1"
    by simp_all
  from two_hands_release_inv [OF a1]
  have 2: "no_double_release (released_after r ?c1) (snd (process_two_hands h1 h2 ?s1))"
    and 3: "released_after (released_after r ?c1) (snd (process_two_hands h1 h2 ?s1))
            \<longrightarrow> \<not> selection_active (fst (process_two_hands h1 h2 ?s1))"
    by simp_all
  from 1 2 3 show ?thesis
    by (simp add: process_frame_two_hands_fst [OF two] process_frame_two_hands_snd [OF two]
        no_double_release_append released_after_append)
next
  case many
  with assms show ?thesis by (simp add: process_frame_many_hands)
qed

lemma toggle_pause_selection [simp]:
  "selection_active (toggle_pause s) = selection_active s"
  by (simp add: toggle_pause_def Let_def)

lemma main_loop_release_inv:
  "(r \<longrightarrow> \<not> selection_active s) \<Longrightarrow>
   no_double_release r (snd (main_loop ts s))
   \<and> (released_after r (snd (main_loop ts s)) \<longrightarrow> \<not> selection_active (fst (main_loop ts s)))"
proof (induction ts arbitrary: r s)
  case Nil
  then show ?case by simp
next
  case (Cons t ts)
  let ?s1 = "if key t = 112 then toggle_pause s else s"
  have s1: "r \<longrightarrow> \<not> selection_active ?s1" using Cons.prems by simp
  show ?case
  proof (cases "\<not> running s \<or> key t = 113")
    case True
    with Cons.prems show ?thesis by auto
  next
    case False
    show ?thesis
    proof (cases "paused ?s1 \<or> capture t = None")
      case True
      with False Cons.IH [OF s1] show ?thesis by (auto simp: Let_def)
    next
      case run: False
      then obtain img where img: "capture t = Some img" by auto
      let ?s2 = "fst (process_frame img ?s1)"
      let ?c2 = "snd (process_frame img ?s1)"
      from process_frame_release_inv [OF s1]
      have c2: "no_double_release r ?c2" and s2: "released_after r ?c2 \<longrightarrow> \<not> selection_active ?s2"
        by simp_all
      have eq: "main_loop (t # ts) s = (fst (main_loop ts ?s2), ?c2 @ snd (main_loop ts ?s2))"
        using False run img by (simp add: Let_def case_prod_beta)
      from Cons.IH [OF s2] c2 show ?thesis
        unfolding eq by (simp add: no_double_release_append released_after_append)
    qed
  qed
qed

lemma start_release:
  assumes "r \<longrightarrow> \<not> selection_active s"
  shows "no_double_release r (snd (start ts s))"
proof -
  let ?s0 = "s\<lparr>running := True\<rparr>"
  from assms have "r \<longrightarrow> \<not> selection_active ?s0" by simp
  from main_loop_release_inv [OF this, of ts]
  show ?thesis
    by (auto simp: start_def cleanup_def case_prod_beta no_double_release_append)
qed

lemma two_hands_break:
  assumes "selection_active s" "\<not> (hand1_all_extended h1 \<and> hand2_index_only h2)"
  shows "process_two_hands h1 h2 s
         = (s\<lparr>selection_active := False, status_message := ''Text Selection Completed''\<rparr>, [MouseUp])"
  using assms by (simp add: process_two_hands_def)

lemma two_hands_idle:
  assumes "\<not> selection_active s" "\<not> (hand1_all_extended h1 \<and> hand2_index_only h2)"
  shows "MouseUp \<notin> set (snd (process_two_hands h1 h2 s))
         \<and> \<not> selection_active (fst (process_two_hands h1 h2 s))"
  using assms by (simp add: process_two_hands_def)

lemma dragging_eq:
  "dragging = (init 0 1920 1080)
     \<lparr>mode_message := ''Two hands'', selection_active := True,
      status_message := ''Text Selection Active''\<rparr>"
  by (simp add: dragging_def process_frame_two_hands_fst process_two_hands_def
      example_poses init_def frame_at_def)

text \<open>
  Where the code does release.  With a selection active, a frame in which exactly two
  hands are detected and the pose test of the selection fails issues exactly one
  \<open>MouseUp\<close> and leaves no selection active, and so does \<open>cleanup\<close>.  In every run of
  \<open>start\<close>, from any session, no two \<open>MouseUp\<close> commands follow each other without a
  \<open>MouseDown\<close> between them; from a fresh session no \<open>MouseUp\<close> comes before the first
  \<open>MouseDown\<close> either.
\<close>

lemma release_paths:
  "(selection_active s \<and> multi_hand_landmarks f = [hand1, hand2]
      \<and> \<not> (hand1_all_extended hand1 \<and> hand2_index_only hand2)
      \<longrightarrow> count_list (snd (process_frame f s)) MouseUp = 1
          \<and> \<not> selection_active (fst (process_frame f s)))
   \<and> (selection_active s \<longrightarrow> cleanup s = (s\<lparr>selection_active := False\<rparr>, [MouseUp]))
   \<and> no_double_release False (snd (start ts s))
   \<and> no_double_release True (snd (start ts (init t0 w h)))"
proof (intro conjI impI)
  assume a: "selection_active s \<and> multi_hand_landmarks f = [hand1, hand2]
      \<and> \<not> (hand1_all_extended hand1 \<and> hand2_index_only hand2)"
  then have two: "multi_hand_landmarks f = [hand1, hand2]"
    and nq: "\<not> (hand1_all_extended hand1 \<and> hand2_index_only hand2)" by simp_all
  let ?s0 = "s\<lparr>mode_message := ''Two hands''\<rparr>"
  from a have act: "selection_active ?s0" by simp
  let ?s1 = "(fst (process_two_hands hand1 hand2 ?s0))\<lparr>mode_message := ''Two hands''\<rparr>"
  have first: "snd (process_two_hands hand1 hand2 ?s0) = [MouseUp]"
    and inact: "\<not> selection_active ?s1"
    by (simp_all add: two_hands_break [OF act nq])
  from two_hands_idle [OF inact nq]
  have second: "MouseUp \<notin> set (snd (process_two_hands hand1 hand2 ?s1))"
    and final: "\<not> selection_active (fst (process_two_hands hand1 hand2 ?s1))"
    by simp_all
  from first second show "count_list (snd (process_frame f s)) MouseUp = 1"
    by (simp add: process_frame_two_hands_snd [OF two] count_list_0_iff)
  from final show "\<not> selection_active (fst (process_frame f s))"
    by (simp add: process_frame_two_hands_fst [OF two])
next
  assume "selection_active s"
  then show "cleanup s = (s\<lparr>selection_active := False\<rparr>, [MouseUp])"
    by (simp add: cleanup_def)
next
  show "no_double_release False (snd (start ts s))"
    by (rule start_release) simp
next
  show "no_double_release True (snd (start ts (init t0 w h)))"
    by (rule start_release) (simp add: init_def)
qed

text \<open>
  Claim C2 at a failing input.  A first frame with an open palm and a pointing hand
  starts a selection: the button is down.  The claim has the next frame release it when
  that frame lacks the pose, whatever the number of hands.  A next frame with no hand
  issues nothing and a next frame with one hand (a peace sign) only scrolls, and the
  selection stays active after either: \<open>process_frame\<close> releases nowhere but in
  \<open>process_two_hands\<close>, which runs on frames with two hands only.
\<close>

theorem drag_held_without_two_hands:
  "selection_active dragging
   \<and> snd (process_frame (frame_at 1 []) dragging) = []
   \<and> selection_active (fst (process_frame (frame_at 1 []) dragging))
   \<and> snd (process_frame (frame_at 1 [peace_sign]) dragging) = [Scroll 50]
   \<and> selection_active (fst (process_frame (frame_at 1 [peace_sign]) dragging))"
  by (simp add: dragging_eq process_frame_no_hands process_frame_one_hand process_single_hand_def
      SCROLL_SPEED_def example_defs)

end
